theory Spec2Isabelle
  imports Complex_Main
begin

section \<open>The M/D/c queue simulation of mdc_queue.py\<close>

text \<open>
  The development embeds \<^verbatim>\<open>get_param\<close> and \<^verbatim>\<open>simulate\<close> of
  \<^verbatim>\<open>src/mdc_queue.py\<close>. Modelling decisions:
  \<^item> Python floats are modelled as \<open>real\<close> (exact arithmetic, no NaN, no infinities),
    Python ints as \<open>int\<close>; an int that is too large for a float raises OverflowError
    where Python converts it.
  \<^item> Exceptions are values of \<open>error\<close>; a function that may raise returns
    \<open>error + 'a\<close>.
  \<^item> The process-wide random source is an explicit sequence \<open>rng :: nat \<Rightarrow> real\<close>:
    \<open>rng i\<close> is the value of \<^verbatim>\<open>-log(1 - random())\<close> at the \<open>i\<close>-th call of
    \<^verbatim>\<open>random.expovariate\<close>; the state counts the calls made so far.
  \<^item> \<^verbatim>\<open>heapq\<close> is modelled by its contract: the heap is a bag of tuples (a list
    whose order is irrelevant), \<^verbatim>\<open>heappop\<close> removes the smallest tuple under
    Python's tuple comparison.
  \<^item> The wall-clock field \<^verbatim>\<open>elapsed_time\<close> is left out.
  \<^item> The \<^verbatim>\<open>while True\<close> loop takes fuel; running out of fuel is \<open>None\<close>.
\<close>

subsection \<open>Python values and errors\<close>

datatype pyval = PyNone | PyBool bool | PyInt int | PyFloat real | PyStr string

datatype pytype = TInt | TFloat

datatype error =
    SystemExit string
  | ZeroDivisionError
  | AssertionError
  | TypeError
  | IndexError
  | OverflowError

text \<open>\<^verbatim>\<open>isinstance(value, typ)\<close>; \<^verbatim>\<open>bool\<close> is a subclass of \<^verbatim>\<open>int\<close>.\<close>

fun isinstance1 :: "pyval \<Rightarrow> pytype \<Rightarrow> bool" where
  "isinstance1 (PyInt i) TInt = True"
| "isinstance1 (PyBool b) TInt = True"
| "isinstance1 (PyFloat x) TFloat = True"
| "isinstance1 v t = False"

definition isinstance :: "pyval \<Rightarrow> pytype list \<Rightarrow> bool" where
  "isinstance v ts = list_ex (isinstance1 v) ts"

text \<open>The number a numeric Python value stands for (\<^verbatim>\<open>True\<close> is 1).\<close>

fun int_val :: "pyval \<Rightarrow> int" where
  "int_val (PyInt i) = i"
| "int_val (PyBool b) = (if b then 1 else 0)"
| "int_val v = 0"

fun num_val :: "pyval \<Rightarrow> real" where
  "num_val (PyFloat x) = x"
| "num_val v = of_int (int_val v)"

text \<open>
  A float division \<^verbatim>\<open>x / v\<close> (and \<^verbatim>\<open>x /= v\<close>) with a float \<^verbatim>\<open>x\<close> first converts
  \<^verbatim>\<open>v\<close> to a float. An int rounds to a double only if its magnitude is below
  \<open>2^1024 - 2^970\<close>; from there on the conversion raises OverflowError.
\<close>

definition float_overflow :: "pyval \<Rightarrow> bool" where
  "float_overflow v = (case v of PyInt i \<Rightarrow> 2 ^ 1024 - 2 ^ 970 \<le> \<bar>i\<bar> | _ \<Rightarrow> False)"

definition to_float :: "pyval \<Rightarrow> error + real" where
  "to_float v =
     (case v of
        PyNone \<Rightarrow> Inl TypeError
      | PyStr s \<Rightarrow> Inl TypeError
      | _ \<Rightarrow> if float_overflow v then Inl OverflowError else Inr (num_val v))"

subsection \<open>get_param\<close>

text \<open>
  \<^verbatim>\<open>sys.exit(1)\<close> after the message on stderr is the error \<open>SystemExit name\<close>,
  \<open>name\<close> being the parameter the message names.
\<close>

definition get_param :: "(string \<rightharpoonup> pyval) \<Rightarrow> string \<Rightarrow> pytype list \<Rightarrow> error + pyval" where
  "get_param params name typ =
     (let v = (case params name of None \<Rightarrow> PyNone | Some x \<Rightarrow> x)
      in if v = PyNone \<or> \<not> isinstance v typ then Inl (SystemExit name) else Inr v)"

subsection \<open>Events and the scheduler\<close>

text \<open>An event is the tuple \<^verbatim>\<open>(time, evtype, start)\<close>; \<^verbatim>\<open>ev_input, ev_done = range(2)\<close>.\<close>

type_synonym event = "real \<times> nat \<times> real option"

definition ev_input :: nat where
  "ev_input = 0"

definition ev_done :: nat where
  "ev_done = 1"

text \<open>
  Python's \<open><\<close> on the tuples: the first component that differs decides. The third
  components are compared only between two events of equal time and kind, which in the
  program are both \<^verbatim>\<open>None\<close> (arrivals) or both floats (completions).
\<close>

fun start_lt :: "real option \<Rightarrow> real option \<Rightarrow> bool" where
  "start_lt (Some a) (Some b) = (a < b)"
| "start_lt x y = False"

fun ev_lt :: "event \<Rightarrow> event \<Rightarrow> bool" where
  "ev_lt (t1, k1, p1) (t2, k2, p2) =
     (t1 < t2 \<or> (t1 = t2 \<and> (k1 < k2 \<or> (k1 = k2 \<and> start_lt p1 p2))))"

definition heappush :: "event list \<Rightarrow> event \<Rightarrow> event list" where
  "heappush evs e = evs @ [e]"

fun ev_min :: "event \<Rightarrow> event list \<Rightarrow> event" where
  "ev_min m [] = m"
| "ev_min m (e # es) = ev_min (if ev_lt e m then e else m) es"

definition heappop :: "event list \<Rightarrow> error + (event \<times> event list)" where
  "heappop evs =
     (case evs of
        [] \<Rightarrow> Inl IndexError
      | e # es \<Rightarrow> (let m = ev_min e es in Inr (m, remove1 m evs)))"

text \<open>
  \<^verbatim>\<open>random.expovariate(lambd)\<close> of the standard library is
  \<^verbatim>\<open>-log(1 - random()) / lambd\<close>; \<open>x\<close> is the value of the numerator, a float.
  The division converts \<^verbatim>\<open>lambd\<close> to a float, then raises ZeroDivisionError if
  that is zero.
\<close>

definition expovariate :: "pyval \<Rightarrow> real \<Rightarrow> error + real" where
  "expovariate lambd x =
     (case to_float lambd of
        Inl e \<Rightarrow> Inl e
      | Inr y \<Rightarrow> if y = 0 then Inl ZeroDivisionError else Inr (x / y))"

subsection \<open>Parameters, statistics and state of simulate\<close>

text \<open>
  The locals \<^verbatim>\<open>l\<close>, \<^verbatim>\<open>d\<close>, \<^verbatim>\<open>c\<close>, \<^verbatim>\<open>twait\<close> and \<^verbatim>\<open>endtime\<close>.
  \<^verbatim>\<open>l\<close> and \<^verbatim>\<open>endtime\<close> are kept as the Python values they are, since they
  are divisors of float divisions (lines 45, 87 and 114), where an int and a float
  behave differently; \<open>cfg_l\<close> and \<open>cfg_endtime\<close> are the numbers they stand for.
  \<^verbatim>\<open>d\<close> is the float \<^verbatim>\<open>1/u\<close>; \<^verbatim>\<open>c\<close> and \<^verbatim>\<open>twait\<close> are only compared.
\<close>

record config =
  cfg_l_py :: pyval
  cfg_d :: real
  cfg_c :: int
  cfg_twait :: real
  cfg_endtime_py :: pyval

definition cfg_l :: "config \<Rightarrow> real" where
  "cfg_l cfg = num_val (cfg_l_py cfg)"

definition cfg_endtime :: "config \<Rightarrow> real" where
  "cfg_endtime cfg = num_val (cfg_endtime_py cfg)"

record stats =
  input_events :: int
  done_events :: int
  completed_without_queueing :: int
  completed_with_queueing :: int
  avg_wait_time :: real
  avg_completion_time :: real
  avg_queue_depth :: real
  max_queue_depth :: int
  served_immediately :: int
  wait_gt_twait :: int
  wait_lt_twait :: int

record state =
  events :: "event list"
  queue :: "real list"
  servers_occupied :: int
  last_queue_update :: real
  stats :: stats
  drawn :: nat

definition init_stats :: stats where
  "init_stats =
     \<lparr>input_events = 0, done_events = 0,
      completed_without_queueing = 0, completed_with_queueing = 0,
      avg_wait_time = 0, avg_completion_time = 0, avg_queue_depth = 0,
      max_queue_depth = 0, served_immediately = 0,
      wait_gt_twait = 0, wait_lt_twait = 0\<rparr>"

definition init_state :: "real \<Rightarrow> state" where
  "init_state t0 =
     \<lparr>events = [(t0, ev_input, None)], queue = [], servers_occupied = 0,
      last_queue_update = 0, stats = init_stats, drawn = 1\<rparr>"

text \<open>Lines 37 to 63: the parameters, the first arrival, the initial state.\<close>

definition prepare :: "(string \<rightharpoonup> pyval) \<Rightarrow> (nat \<Rightarrow> real) \<Rightarrow> error + (config \<times> state)" where
  "prepare params rng =
     (case get_param params ''l'' [TInt, TFloat] of Inl e \<Rightarrow> Inl e | Inr l \<Rightarrow>
      case get_param params ''u'' [TInt, TFloat] of Inl e \<Rightarrow> Inl e | Inr u \<Rightarrow>
      if num_val u = 0 then Inl ZeroDivisionError else
      case get_param params ''c'' [TInt] of Inl e \<Rightarrow> Inl e | Inr c \<Rightarrow>
      case get_param params ''twait'' [TInt, TFloat] of Inl e \<Rightarrow> Inl e | Inr twait \<Rightarrow>
      case get_param params ''endtime'' [TInt, TFloat] of Inl e \<Rightarrow> Inl e | Inr endtime \<Rightarrow>
      case expovariate l (rng 0) of Inl e \<Rightarrow> Inl e | Inr t0 \<Rightarrow>
        Inr (\<lparr>cfg_l_py = l, cfg_d = 1 / num_val u, cfg_c = int_val c,
              cfg_twait = num_val twait, cfg_endtime_py = endtime\<rparr>,
             init_state t0))"

subsection \<open>One iteration of the event loop\<close>

datatype outcome = Continue state | Break state | Raise error

text \<open>Lines 87 and 88: draw the next interarrival time and schedule the next arrival.\<close>

definition next_input :: "(nat \<Rightarrow> real) \<Rightarrow> config \<Rightarrow> real \<Rightarrow> state \<Rightarrow> outcome" where
  "next_input rng cfg now s =
     (case expovariate (cfg_l_py cfg) (rng (drawn s)) of
        Inl e \<Rightarrow> Raise e
      | Inr dt \<Rightarrow>
          Continue (s\<lparr>events := heappush (events s) (now + dt, ev_input, None),
                      drawn := Suc (drawn s)\<rparr>))"

text \<open>Lines 73 to 88; \<open>evs\<close> is the heap after the pop.\<close>

definition on_input :: "(nat \<Rightarrow> real) \<Rightarrow> config \<Rightarrow> real \<Rightarrow> event list \<Rightarrow> state \<Rightarrow> outcome" where
  "on_input rng cfg now evs s =
     (let st1 = (stats s)\<lparr>input_events := input_events (stats s) + 1\<rparr>
      in if servers_occupied s < cfg_c cfg then
           (if length (queue s) \<noteq> 0 then Raise AssertionError
            else next_input rng cfg now
                   (s\<lparr>events := heappush evs (now + cfg_d cfg, ev_done, Some now),
                      servers_occupied := servers_occupied s + 1,
                      stats := st1\<lparr>served_immediately := served_immediately st1 + 1\<rparr>\<rparr>))
         else
           next_input rng cfg now
             (s\<lparr>events := evs,
                queue := queue s @ [now],
                last_queue_update := now,
                stats := st1\<lparr>avg_queue_depth :=
                               avg_queue_depth st1
                               + (now - last_queue_update s) * real (length (queue s)),
                             max_queue_depth :=
                               max (max_queue_depth st1) (int (length (queue s)))\<rparr>\<rparr>))"

text \<open>Lines 90 to 108.\<close>

definition on_done :: "config \<Rightarrow> real \<Rightarrow> real option \<Rightarrow> event list \<Rightarrow> state \<Rightarrow> outcome" where
  "on_done cfg now start evs s =
     (let so1 = servers_occupied s - 1
      in if \<not> (0 \<le> so1 \<and> so1 < cfg_c cfg) then Raise AssertionError
         else
           (case start of
              None \<Rightarrow> Raise TypeError
            | Some started \<Rightarrow>
                (let st1 = (stats s)\<lparr>done_events := done_events (stats s) + 1,
                                     avg_completion_time :=
                                       avg_completion_time (stats s) + (now - started)\<rparr>
                 in case queue s of
                      [] \<Rightarrow> Continue (s\<lparr>events := evs, servers_occupied := so1, stats := st1\<rparr>)
                    | arrived # rest \<Rightarrow>
                        (let st2 = st1\<lparr>avg_queue_depth :=
                                         avg_queue_depth st1
                                         + (now - last_queue_update s) * real (length (queue s))\<rparr>;
                             wait_time = now - arrived;
                             st3 = st2\<lparr>avg_wait_time := avg_wait_time st2 + wait_time\<rparr>;
                             st4 = (if wait_time > cfg_twait cfg
                                    then st3\<lparr>wait_gt_twait := wait_gt_twait st3 + 1\<rparr>
                                    else st3\<lparr>wait_lt_twait := wait_lt_twait st3 + 1\<rparr>)
                         in Continue
                              (s\<lparr>events := heappush evs (now + cfg_d cfg, ev_done, Some arrived),
                                 queue := rest,
                                 servers_occupied := so1 + 1,
                                 last_queue_update := now,
                                 stats := st4\<rparr>)))))"

text \<open>Lines 68 to 108: the loop body. \<open>Break\<close> is the \<^verbatim>\<open>break\<close> of line 71.\<close>

definition step :: "(nat \<Rightarrow> real) \<Rightarrow> config \<Rightarrow> state \<Rightarrow> outcome" where
  "step rng cfg s =
     (if \<not> length (events s) > 0 then Raise AssertionError
      else
        (case heappop (events s) of
           Inl e \<Rightarrow> Raise e
         | Inr ((now, evtype, start), evs) \<Rightarrow>
             if now > cfg_endtime cfg then Break (s\<lparr>events := evs\<rparr>)
             else if evtype = ev_input then on_input rng cfg now evs s
             else if evtype = ev_done then on_done cfg now start evs s
             else Continue (s\<lparr>events := evs\<rparr>)))"

subsection \<open>The loop, the finalisation and simulate\<close>

fun loop :: "nat \<Rightarrow> (nat \<Rightarrow> real) \<Rightarrow> config \<Rightarrow> state \<Rightarrow> (error + state) option" where
  "loop 0 rng cfg s = None"
| "loop (Suc n) rng cfg s =
     (case step rng cfg s of
        Continue s' \<Rightarrow> loop n rng cfg s'
      | Break s' \<Rightarrow> Some (Inr s')
      | Raise e \<Rightarrow> Some (Inl e))"

text \<open>
  The dictionary \<^verbatim>\<open>simulate\<close> returns. Lines 112 to 118 replace five entries of
  \<^verbatim>\<open>stats\<close> by quotients, so these fields are reals here.
\<close>

record result =
  r_input_events :: int
  r_done_events :: int
  r_completed_without_queueing :: int
  r_completed_with_queueing :: int
  r_avg_wait_time :: real
  r_avg_completion_time :: real
  r_avg_queue_depth :: real
  r_max_queue_depth :: int
  r_served_immediately :: real
  r_wait_gt_twait :: real
  r_wait_lt_twait :: real
  r_queue_end_len :: int
  r_events_end_len :: int

text \<open>
  Lines 112 to 120. The first division is by \<^verbatim>\<open>stats['done_events']\<close>, the third by
  \<^verbatim>\<open>endtime\<close>; both have a float on the left, so the divisor is converted to a
  float, and Python raises ZeroDivisionError when it is zero. The divisions of lines 116
  to 118 are between ints and come after a non-zero check of the same divisor.
\<close>

definition finalize :: "config \<Rightarrow> state \<Rightarrow> error + result" where
  "finalize cfg s =
     (let st = stats s; n = done_events st
      in case to_float (PyInt n) of
           Inl e \<Rightarrow> Inl e
         | Inr fn \<Rightarrow>
             if fn = 0 then Inl ZeroDivisionError
             else
               (case to_float (cfg_endtime_py cfg) of
                  Inl e \<Rightarrow> Inl e
                | Inr fe \<Rightarrow>
                    if fe = 0 then Inl ZeroDivisionError
                    else Inr \<lparr>r_input_events = input_events st,
                              r_done_events = n,
                              r_completed_without_queueing = completed_without_queueing st,
                              r_completed_with_queueing = completed_with_queueing st,
                              r_avg_wait_time = avg_wait_time st / fn,
                              r_avg_completion_time = avg_completion_time st / fn,
                              r_avg_queue_depth = avg_queue_depth st / fe,
                              r_max_queue_depth = max_queue_depth st,
                              r_served_immediately = of_int (served_immediately st) / of_int n,
                              r_wait_gt_twait = of_int (wait_gt_twait st) / of_int n,
                              r_wait_lt_twait = of_int (wait_lt_twait st) / of_int n,
                              r_queue_end_len = int (length (queue s)),
                              r_events_end_len = int (length (events s))\<rparr>))"

definition simulate :: "nat \<Rightarrow> (string \<rightharpoonup> pyval) \<Rightarrow> (nat \<Rightarrow> real) \<Rightarrow> (error + result) option" where
  "simulate fuel params rng =
     (case prepare params rng of
        Inl e \<Rightarrow> Some (Inl e)
      | Inr (cfg, s0) \<Rightarrow>
          (case loop fuel rng cfg s0 of
             None \<Rightarrow> None
           | Some (Inl e) \<Rightarrow> Some (Inl e)
           | Some (Inr s) \<Rightarrow> Some (finalize cfg s)))"

text \<open>The states the loop can be in at the top of an iteration.\<close>

inductive reachable :: "(string \<rightharpoonup> pyval) \<Rightarrow> (nat \<Rightarrow> real) \<Rightarrow> config \<Rightarrow> state \<Rightarrow> bool"
  for params :: "string \<rightharpoonup> pyval" and rng :: "nat \<Rightarrow> real" where
  start: "prepare params rng = Inr (cfg, s0) \<Longrightarrow> reachable params rng cfg s0"
| dispatch: "reachable params rng cfg s \<Longrightarrow> step rng cfg s = Continue s' \<Longrightarrow>
             reachable params rng cfg s'"

text \<open>The state after \<open>k\<close> more dispatched events, if the loop gets that far.\<close>

fun dispatch_n :: "nat \<Rightarrow> (nat \<Rightarrow> real) \<Rightarrow> config \<Rightarrow> state \<Rightarrow> state option" where
  "dispatch_n 0 rng cfg s = Some s"
| "dispatch_n (Suc k) rng cfg s =
     (case step rng cfg s of
        Continue s' \<Rightarrow> dispatch_n k rng cfg s'
      | Break s' \<Rightarrow> None
      | Raise e \<Rightarrow> None)"

subsection \<open>Invariants of the loop\<close>

text \<open>The events of kind \<^verbatim>\<open>ev_done\<close> in the heap: the completions still pending.\<close>

definition pending_done :: "state \<Rightarrow> event list" where
  "pending_done s = filter (\<lambda>e. fst (snd e) = ev_done) (events s)"

definition counts_inv :: "state \<Rightarrow> bool" where
  "counts_inv s \<longleftrightarrow>
     input_events (stats s)
       = done_events (stats s) + servers_occupied s + int (length (queue s))
   \<and> 0 \<le> servers_occupied s
   \<and> int (length (pending_done s)) = servers_occupied s"

definition unused_inv :: "state \<Rightarrow> bool" where
  "unused_inv s \<longleftrightarrow>
     completed_without_queueing (stats s) = 0 \<and> completed_with_queueing (stats s) = 0"

text \<open>
  The occupancy invariant: between 0 and \<open>c\<close> servers are busy, and jobs wait only
  while all \<open>c\<close> servers are busy.
\<close>

definition occupancy_inv :: "config \<Rightarrow> state \<Rightarrow> bool" where
  "occupancy_inv cfg s \<longleftrightarrow>
     0 \<le> servers_occupied s \<and> servers_occupied s \<le> cfg_c cfg
   \<and> (queue s \<noteq> [] \<longrightarrow> servers_occupied s = cfg_c cfg)"

text \<open>Every job that has started service is counted once, when it starts.\<close>

definition starts_inv :: "state \<Rightarrow> bool" where
  "starts_inv s \<longleftrightarrow>
     served_immediately (stats s) + wait_lt_twait (stats s) + wait_gt_twait (stats s)
       = done_events (stats s) + servers_occupied s"

text \<open>
  The accumulated area under the queue length, against the recorded maximum: pending
  events are not earlier than the last update, and the area is at most the time of the
  last update times the recorded maximum plus one.
\<close>

definition depth_inv :: "config \<Rightarrow> state \<Rightarrow> bool" where
  "depth_inv cfg s \<longleftrightarrow>
     0 \<le> last_queue_update s
   \<and> (last_queue_update s = 0 \<or> last_queue_update s \<le> cfg_endtime cfg)
   \<and> (\<forall>e \<in> set (events s). last_queue_update s \<le> fst e)
   \<and> 0 \<le> avg_queue_depth (stats s)
   \<and> avg_queue_depth (stats s)
       \<le> (of_int (max_queue_depth (stats s)) + 1) * last_queue_update s
   \<and> int (length (queue s)) \<le> max_queue_depth (stats s) + 1
   \<and> 0 \<le> max_queue_depth (stats s)"

subsection \<open>Concrete configurations and runs\<close>

text \<open>
  The dictionary of a configuration file with float rates and times and an int server
  count, and a random source that yields the listed draws and then a constant.
\<close>

definition mk_params :: "real \<Rightarrow> real \<Rightarrow> int \<Rightarrow> real \<Rightarrow> real \<Rightarrow> (string \<rightharpoonup> pyval)" where
  "mk_params l u c twait endtime =
     [''l'' \<mapsto> PyFloat l, ''u'' \<mapsto> PyFloat u, ''c'' \<mapsto> PyInt c,
      ''twait'' \<mapsto> PyFloat twait, ''endtime'' \<mapsto> PyFloat endtime]"

definition draws_of :: "real list \<Rightarrow> real \<Rightarrow> nat \<Rightarrow> real" where
  "draws_of xs dflt i = (if i < length xs then xs ! i else dflt)"

text \<open>
  One server, service time 1, horizon 10; arrivals at 0.1 and 0.2, the next one at 100.2.
  The second job waits from 0.2 to 1.1.
\<close>

definition demo_params :: "string \<rightharpoonup> pyval" where
  "demo_params = mk_params 1 1 1 1 10"

definition demo_rng :: "nat \<Rightarrow> real" where
  "demo_rng = draws_of [1 / 10, 1 / 10] 100"

definition demo_cfg :: config where
  "demo_cfg = \<lparr>cfg_l_py = PyFloat 1, cfg_d = 1, cfg_c = 1, cfg_twait = 1,
      cfg_endtime_py = PyFloat 10\<rparr>"

text \<open>After both arrivals: one job in service, one waiting.\<close>

definition demo_queued :: state where
  "demo_queued =
     \<lparr>events = [(11 / 10, ev_done, Some (1 / 10)), (501 / 5, ev_input, None)],
      queue = [1 / 5], servers_occupied = 1, last_queue_update = 1 / 5,
      stats = \<lparr>input_events = 2, done_events = 0,
               completed_without_queueing = 0, completed_with_queueing = 0,
               avg_wait_time = 0, avg_completion_time = 0, avg_queue_depth = 0,
               max_queue_depth = 0, served_immediately = 1,
               wait_gt_twait = 0, wait_lt_twait = 0\<rparr>,
      drawn = 3\<rparr>"

text \<open>After both completions: the system is empty, the next arrival is pending.\<close>

definition demo_drained :: state where
  "demo_drained =
     \<lparr>events = [(501 / 5, ev_input, None)],
      queue = [], servers_occupied = 0, last_queue_update = 11 / 10,
      stats = \<lparr>input_events = 2, done_events = 2,
               completed_without_queueing = 0, completed_with_queueing = 0,
               avg_wait_time = 9 / 10, avg_completion_time = 29 / 10,
               avg_queue_depth = 9 / 10,
               max_queue_depth = 0, served_immediately = 1,
               wait_gt_twait = 0, wait_lt_twait = 1\<rparr>,
      drawn = 3\<rparr>"

text \<open>What \<^verbatim>\<open>simulate\<close> returns for this run.\<close>

definition demo_result :: result where
  "demo_result =
     \<lparr>r_input_events = 2, r_done_events = 2,
      r_completed_without_queueing = 0, r_completed_with_queueing = 0,
      r_avg_wait_time = 9 / 20, r_avg_completion_time = 29 / 20,
      r_avg_queue_depth = 9 / 100, r_max_queue_depth = 0,
      r_served_immediately = 1 / 2, r_wait_gt_twait = 0, r_wait_lt_twait = 1 / 2,
      r_queue_end_len = 0, r_events_end_len = 0\<rparr>"

text \<open>
  Two servers, service time 1, horizon 1.75; arrivals at 0.5 and 1, the next one at 6.
  The first job completes at 1.5; the second is still in service at the horizon, its
  completion is due at 2.
\<close>

definition cutoff_params :: "string \<rightharpoonup> pyval" where
  "cutoff_params = mk_params 1 1 2 1 (7 / 4)"

definition cutoff_rng :: "nat \<Rightarrow> real" where
  "cutoff_rng = draws_of [1 / 2, 1 / 2] 5"

definition cutoff_cfg :: config where
  "cutoff_cfg = \<lparr>cfg_l_py = PyFloat 1, cfg_d = 1, cfg_c = 2, cfg_twait = 1,
      cfg_endtime_py = PyFloat (7 / 4)\<rparr>"

text \<open>The state after the first completion, when the completion due at 2 is popped.\<close>

definition cutoff_state :: state where
  "cutoff_state =
     \<lparr>events = [(2, ev_done, Some 1), (6, ev_input, None)],
      queue = [], servers_occupied = 1, last_queue_update = 0,
      stats = \<lparr>input_events = 2, done_events = 1,
               completed_without_queueing = 0, completed_with_queueing = 0,
               avg_wait_time = 0, avg_completion_time = 1, avg_queue_depth = 0,
               max_queue_depth = 0, served_immediately = 2,
               wait_gt_twait = 0, wait_lt_twait = 0\<rparr>,
      drawn = 3\<rparr>"

text \<open>The demonstration run after the first completion: the waiting job is in service.\<close>

definition demo_handover :: state where
  "demo_handover =
     \<lparr>events = [(501 / 5, ev_input, None), (21 / 10, ev_done, Some (1 / 5))],
      queue = [], servers_occupied = 1, last_queue_update = 11 / 10,
      stats = \<lparr>input_events = 2, done_events = 1,
               completed_without_queueing = 0, completed_with_queueing = 0,
               avg_wait_time = 9 / 10, avg_completion_time = 1,
               avg_queue_depth = 9 / 10,
               max_queue_depth = 0, served_immediately = 1,
               wait_gt_twait = 0, wait_lt_twait = 1\<rparr>,
      drawn = 3\<rparr>"

text \<open>What \<^verbatim>\<open>simulate\<close> returns for the run with the job in service at the horizon.\<close>

definition cutoff_result :: result where
  "cutoff_result =
     \<lparr>r_input_events = 2, r_done_events = 1,
      r_completed_without_queueing = 0, r_completed_with_queueing = 0,
      r_avg_wait_time = 0, r_avg_completion_time = 1,
      r_avg_queue_depth = 0, r_max_queue_depth = 0,
      r_served_immediately = 2, r_wait_gt_twait = 0, r_wait_lt_twait = 0,
      r_queue_end_len = 0, r_events_end_len = 1\<rparr>"

text \<open>
  One server, service time 1, threshold 1, horizon 2; one arrival at 0.5, the next one
  at 5.5. The only job is served at once and completes at 1.5.
\<close>

definition single_params :: "string \<rightharpoonup> pyval" where
  "single_params = mk_params 1 1 1 1 2"

definition single_rng :: "nat \<Rightarrow> real" where
  "single_rng = draws_of [1 / 2] 5"

definition single_cfg :: config where
  "single_cfg = \<lparr>cfg_l_py = PyFloat 1, cfg_d = 1, cfg_c = 1, cfg_twait = 1,
      cfg_endtime_py = PyFloat 2\<rparr>"

definition single_final :: state where
  "single_final =
     \<lparr>events = [], queue = [], servers_occupied = 0, last_queue_update = 0,
      stats = \<lparr>input_events = 1, done_events = 1,
               completed_without_queueing = 0, completed_with_queueing = 0,
               avg_wait_time = 0, avg_completion_time = 1, avg_queue_depth = 0,
               max_queue_depth = 0, served_immediately = 1,
               wait_gt_twait = 0, wait_lt_twait = 0\<rparr>,
      drawn = 2\<rparr>"

definition single_result :: result where
  "single_result =
     \<lparr>r_input_events = 1, r_done_events = 1,
      r_completed_without_queueing = 0, r_completed_with_queueing = 0,
      r_avg_wait_time = 0, r_avg_completion_time = 1,
      r_avg_queue_depth = 0, r_max_queue_depth = 0,
      r_served_immediately = 1, r_wait_gt_twait = 0, r_wait_lt_twait = 0,
      r_queue_end_len = 0, r_events_end_len = 0\<rparr>"

text \<open>Horizon 0: the first arrival, at time 1, is already beyond it.\<close>

definition idle_params :: "string \<rightharpoonup> pyval" where
  "idle_params = mk_params 1 1 1 1 0"

definition idle_rng :: "nat \<Rightarrow> real" where
  "idle_rng = draws_of [] 1"

definition idle_cfg :: config where
  "idle_cfg = \<lparr>cfg_l_py = PyFloat 1, cfg_d = 1, cfg_c = 1, cfg_twait = 1,
      cfg_endtime_py = PyFloat 0\<rparr>"

text \<open>
  Horizon 0.5, service time 1: the job that arrives at 0.1 is still in service at the
  horizon.
\<close>

definition short_params :: "string \<rightharpoonup> pyval" where
  "short_params = mk_params 1 1 1 1 (1 / 2)"

definition short_rng :: "nat \<Rightarrow> real" where
  "short_rng = draws_of [1 / 10] 5"

definition short_cfg :: config where
  "short_cfg = \<lparr>cfg_l_py = PyFloat 1, cfg_d = 1, cfg_c = 1, cfg_twait = 1,
      cfg_endtime_py = PyFloat (1 / 2)\<rparr>"

definition short_final :: state where
  "short_final =
     \<lparr>events = [(51 / 10, ev_input, None)], queue = [], servers_occupied = 1,
      last_queue_update = 0,
      stats = \<lparr>input_events = 1, done_events = 0,
               completed_without_queueing = 0, completed_with_queueing = 0,
               avg_wait_time = 0, avg_completion_time = 0, avg_queue_depth = 0,
               max_queue_depth = 0, served_immediately = 1,
               wait_gt_twait = 0, wait_lt_twait = 0\<rparr>,
      drawn = 2\<rparr>"

text \<open>
  Configurations with a server count of \<open>-1\<close> and of 0, and the state after the first
  arrival (at 0.1) in either: the job waits, no server is busy.
\<close>

definition negative_params :: "string \<rightharpoonup> pyval" where
  "negative_params = mk_params 1 1 (- 1) 1 10"

definition negative_cfg :: config where
  "negative_cfg = \<lparr>cfg_l_py = PyFloat 1, cfg_d = 1, cfg_c = - 1, cfg_twait = 1,
      cfg_endtime_py = PyFloat 10\<rparr>"

definition noserver_params :: "string \<rightharpoonup> pyval" where
  "noserver_params = mk_params 1 1 0 1 10"

definition noserver_cfg :: config where
  "noserver_cfg = \<lparr>cfg_l_py = PyFloat 1, cfg_d = 1, cfg_c = 0, cfg_twait = 1,
      cfg_endtime_py = PyFloat 10\<rparr>"

definition unserved_state :: state where
  "unserved_state =
     \<lparr>events = [(1 / 5, ev_input, None)], queue = [1 / 10], servers_occupied = 0,
      last_queue_update = 1 / 10,
      stats = \<lparr>input_events = 1, done_events = 0,
               completed_without_queueing = 0, completed_with_queueing = 0,
               avg_wait_time = 0, avg_completion_time = 0, avg_queue_depth = 0,
               max_queue_depth = 0, served_immediately = 0,
               wait_gt_twait = 0, wait_lt_twait = 0\<rparr>,
      drawn = 2\<rparr>"

section \<open>Properties\<close>

subsection \<open>Conversion to float and the finalisation\<close>

lemma to_float_Inr: "to_float v = Inr y \<Longrightarrow> y = num_val v"
  by (auto simp: to_float_def split: pyval.splits if_splits)

lemma to_float_number:
  assumes "isinstance v [TInt, TFloat]"
  shows "to_float v = (if float_overflow v then Inl OverflowError else Inr (num_val v))"
  using assms by (cases v) (auto simp: isinstance_def to_float_def)

lemma finalize_zero: "done_events (stats s) = 0 \<Longrightarrow> finalize cfg s = Inl ZeroDivisionError"
  by (simp add: finalize_def to_float_def float_overflow_def)

lemma finalize_Inr:
  assumes "finalize cfg s = Inr r"
  shows "done_events (stats s) \<noteq> 0 \<and> cfg_endtime cfg \<noteq> 0
       \<and> r_avg_queue_depth r = avg_queue_depth (stats s) / cfg_endtime cfg
       \<and> r_max_queue_depth r = max_queue_depth (stats s)
       \<and> r_completed_without_queueing r = completed_without_queueing (stats s)
       \<and> r_completed_with_queueing r = completed_with_queueing (stats s)"
  using assms
  by (auto simp: finalize_def Let_def cfg_endtime_def split: sum.splits if_splits
           dest: to_float_Inr)

subsection \<open>The scheduler\<close>

lemma ev_min_mem: "ev_min m es \<in> set (m # es)"
  by (induction es arbitrary: m) auto

lemma heappop_Inr:
  "heappop evs = Inr (m, rest) \<Longrightarrow> m \<in> set evs \<and> rest = remove1 m evs"
  using ev_min_mem by (cases evs) (auto simp: heappop_def Let_def)

lemma length_filter_remove1:
  "m \<in> set evs \<Longrightarrow>
   int (length (filter P (remove1 m evs)))
     = int (length (filter P evs)) - (if P m then 1 else 0)"
  by (induction evs) auto

subsection \<open>Case analysis of one iteration\<close>

lemma step_cases:
  assumes "step rng cfg s = Continue s'"
  obtains (arrival) now start evs where
      "heappop (events s) = Inr ((now, ev_input, start), evs)"
      "now \<le> cfg_endtime cfg" "on_input rng cfg now evs s = Continue s'"
  | (completion) now start evs where
      "heappop (events s) = Inr ((now, ev_done, start), evs)"
      "now \<le> cfg_endtime cfg" "on_done cfg now start evs s = Continue s'"
  | (other) now k start evs where
      "heappop (events s) = Inr ((now, k, start), evs)"
      "now \<le> cfg_endtime cfg" "k \<noteq> ev_input" "k \<noteq> ev_done" "s' = s\<lparr>events := evs\<rparr>"
  using assms
  by (auto simp: step_def split: if_splits sum.splits prod.splits)

lemma step_Break:
  assumes "step rng cfg s = Break s'"
  obtains now k start evs where
      "heappop (events s) = Inr ((now, k, start), evs)"
      "cfg_endtime cfg < now" "s' = s\<lparr>events := evs\<rparr>"
  using assms
  by (auto simp: step_def on_input_def on_done_def next_input_def Let_def
           split: if_splits sum.splits prod.splits option.splits list.splits)

lemma prepare_init:
  "prepare params rng = Inr (cfg, s0) \<Longrightarrow> \<exists>t0. s0 = init_state t0"
  by (auto simp: prepare_def split: sum.splits if_splits)

lemma reachable_dispatch_n:
  "reachable params rng cfg s \<Longrightarrow> dispatch_n k rng cfg s = Some s' \<Longrightarrow>
   reachable params rng cfg s'"
proof (induction k arbitrary: s)
  case 0
  then show ?case by simp
next
  case (Suc k)
  from Suc.prems(2) obtain s1 where s1: "step rng cfg s = Continue s1"
    and rest: "dispatch_n k rng cfg s1 = Some s'"
    by (auto split: outcome.splits)
  from Suc.prems(1) s1 have "reachable params rng cfg s1"
    by (rule reachable.dispatch)
  then show ?case using rest by (rule Suc.IH)
qed

lemma loop_final:
  "reachable params rng cfg s0 \<Longrightarrow> loop n rng cfg s0 = Some (Inr s') \<Longrightarrow>
   \<exists>s. reachable params rng cfg s \<and> step rng cfg s = Break s'"
proof (induction n arbitrary: s0)
  case 0
  then show ?case by simp
next
  case (Suc n)
  show ?case
  proof (cases "step rng cfg s0")
    case (Continue s1)
    with Suc.prems(2) have "loop n rng cfg s1 = Some (Inr s')" by simp
    moreover from Suc.prems(1) Continue have "reachable params rng cfg s1"
      by (rule reachable.dispatch)
    ultimately show ?thesis by (rule Suc.IH[rotated])
  next
    case (Break s1)
    with Suc.prems show ?thesis by auto
  next
    case (Raise e)
    with Suc.prems(2) show ?thesis by simp
  qed
qed

subsection \<open>Counting arrivals, completions and busy servers\<close>

lemma on_input_counts:
  assumes "counts_inv s" "heappop (events s) = Inr ((now, ev_input, start), evs)"
    "on_input rng cfg now evs s = Continue s'"
  shows "counts_inv s'"
proof -
  from heappop_Inr[OF assms(2)] have m: "(now, ev_input, start) \<in> set (events s)"
    and r: "evs = remove1 (now, ev_input, start) (events s)" by auto
  have "int (length (filter (\<lambda>e. fst (snd e) = ev_done) evs))
        = int (length (filter (\<lambda>e. fst (snd e) = ev_done) (events s)))"
    unfolding r using length_filter_remove1[OF m, of "\<lambda>e. fst (snd e) = ev_done"]
    by (simp add: ev_input_def ev_done_def)
  with assms(1,3) show ?thesis
    by (auto simp: on_input_def next_input_def counts_inv_def pending_done_def
                   heappush_def Let_def ev_input_def ev_done_def
             split: if_splits sum.splits)
qed

lemma on_done_counts:
  assumes "counts_inv s" "heappop (events s) = Inr ((now, ev_done, start), evs)"
    "on_done cfg now start evs s = Continue s'"
  shows "counts_inv s'"
proof -
  from heappop_Inr[OF assms(2)] have m: "(now, ev_done, start) \<in> set (events s)"
    and r: "evs = remove1 (now, ev_done, start) (events s)" by auto
  have "int (length (filter (\<lambda>e. fst (snd e) = ev_done) evs))
        = int (length (filter (\<lambda>e. fst (snd e) = ev_done) (events s))) - 1"
    unfolding r using length_filter_remove1[OF m, of "\<lambda>e. fst (snd e) = ev_done"]
    by simp
  with assms(1,3) show ?thesis
    by (auto simp: on_done_def counts_inv_def pending_done_def heappush_def Let_def
             split: if_splits option.splits list.splits)
qed

lemma step_counts:
  assumes "counts_inv s" "step rng cfg s = Continue s'"
  shows "counts_inv s'"
  using assms(2)
proof (cases rule: step_cases)
  case arrival
  with assms(1) show ?thesis by (blast intro: on_input_counts)
next
  case completion
  with assms(1) show ?thesis by (blast intro: on_done_counts)
next
  case (other now k start evs)
  from heappop_Inr[OF other(1)] have m: "(now, k, start) \<in> set (events s)"
    and r: "evs = remove1 (now, k, start) (events s)" by auto
  have "int (length (filter (\<lambda>e. fst (snd e) = ev_done) evs))
        = int (length (filter (\<lambda>e. fst (snd e) = ev_done) (events s)))"
    unfolding r using length_filter_remove1[OF m, of "\<lambda>e. fst (snd e) = ev_done"] other(4)
    by simp
  with assms(1) other(5) show ?thesis by (simp add: counts_inv_def pending_done_def)
qed

lemma init_counts: "counts_inv (init_state t0)"
  by (simp add: counts_inv_def pending_done_def init_state_def init_stats_def
                ev_input_def ev_done_def)

lemma reachable_counts: "reachable params rng cfg s \<Longrightarrow> counts_inv s"
proof (induction rule: reachable.induct)
  case (start cfg s0)
  then show ?case using prepare_init init_counts by blast
next
  case (dispatch cfg s s')
  then show ?case using step_counts by blast
qed

subsection \<open>The demonstration run\<close>

lemmas run_defs =
  mk_params_def draws_of_def prepare_def get_param_def isinstance_def expovariate_def
  to_float_def float_overflow_def cfg_l_def cfg_endtime_def
  init_state_def init_stats_def step_def heappop_def heappush_def ev_input_def ev_done_def
  on_input_def on_done_def next_input_def Let_def

lemma demo_prepare: "prepare demo_params demo_rng = Inr (demo_cfg, init_state (1 / 10))"
  by (simp add: demo_params_def demo_rng_def demo_cfg_def run_defs)

lemma demo_dispatch_2:
  "dispatch_n (Suc (Suc 0)) demo_rng demo_cfg (init_state (1 / 10)) = Some demo_queued"
  by (simp add: demo_rng_def demo_cfg_def demo_queued_def run_defs)

lemma demo_dispatch_4:
  "dispatch_n (Suc (Suc (Suc (Suc 0)))) demo_rng demo_cfg (init_state (1 / 10))
     = Some demo_drained"
  by (simp add: demo_rng_def demo_cfg_def demo_drained_def run_defs)

lemma demo_reachable_queued: "reachable demo_params demo_rng demo_cfg demo_queued"
  using reachable.start[OF demo_prepare] demo_dispatch_2 by (rule reachable_dispatch_n)

lemma demo_reachable_drained: "reachable demo_params demo_rng demo_cfg demo_drained"
  using reachable.start[OF demo_prepare] demo_dispatch_4 by (rule reachable_dispatch_n)

section \<open>The claims\<close>

text \<open>
  C7. In every state the loop reaches, the arrival count \<^verbatim>\<open>input_events\<close> is at least
  the completion count \<^verbatim>\<open>done_events\<close>, and the two are equal only when no job is in
  flight: no server is occupied, nobody waits and no completion is pending in the heap.
  The same holds for the state the loop ends with at the horizon cutoff.
\<close>

theorem arrivals_ge_completions:
  assumes "reachable params rng cfg s"
  shows "done_events (stats s) \<le> input_events (stats s)
       \<and> (input_events (stats s) = done_events (stats s) \<longrightarrow>
            servers_occupied s = 0 \<and> queue s = [] \<and> pending_done s = [])
       \<and> (step rng cfg s = Break s' \<longrightarrow>
            done_events (stats s') \<le> input_events (stats s')
            \<and> (input_events (stats s') = done_events (stats s') \<longrightarrow>
                 servers_occupied s' = 0 \<and> queue s' = []))"
proof -
  from reachable_counts[OF assms]
  have total: "input_events (stats s)
                 = done_events (stats s) + servers_occupied s + int (length (queue s))"
    and busy: "0 \<le> servers_occupied s"
    and pending: "int (length (pending_done s)) = servers_occupied s"
    by (simp_all add: counts_inv_def)
  from total busy have ge: "done_events (stats s) \<le> input_events (stats s)"
    by simp
  have idle: "servers_occupied s = 0 \<and> queue s = [] \<and> pending_done s = []"
    if "input_events (stats s) = done_events (stats s)"
  proof -
    from that total have "servers_occupied s + int (length (queue s)) = 0"
      by simp
    with busy have "servers_occupied s = 0" and "int (length (queue s)) = 0"
      by linarith+
    with pending show ?thesis by simp
  qed
  have cut: "done_events (stats s') \<le> input_events (stats s')
           \<and> (input_events (stats s') = done_events (stats s') \<longrightarrow>
                servers_occupied s' = 0 \<and> queue s' = [])"
    if "step rng cfg s = Break s'"
  proof -
    from that have "stats s' = stats s" "servers_occupied s' = servers_occupied s"
      "queue s' = queue s"
      by (rule step_Break, simp)+
    with ge idle show ?thesis by simp
  qed
  from ge idle cut show ?thesis by blast
qed

lemma demo_step_drained:
  "step demo_rng demo_cfg demo_drained = Break (demo_drained\<lparr>events := []\<rparr>)"
  by (simp add: demo_rng_def demo_cfg_def demo_drained_def run_defs)

theorem arrivals_ge_completions_witness:
  "reachable demo_params demo_rng demo_cfg demo_drained
   \<and> input_events (stats demo_drained) = done_events (stats demo_drained)
   \<and> servers_occupied demo_drained = 0 \<and> queue demo_drained = []
   \<and> pending_done demo_drained = []
   \<and> step demo_rng demo_cfg demo_drained = Break (demo_drained\<lparr>events := []\<rparr>)
   \<and> input_events (stats (demo_drained\<lparr>events := []\<rparr>))
       = done_events (stats (demo_drained\<lparr>events := []\<rparr>))
   \<and> servers_occupied (demo_drained\<lparr>events := []\<rparr>) = 0
   \<and> queue (demo_drained\<lparr>events := []\<rparr>) = []"
  using arrivals_ge_completions[OF demo_reachable_drained, of "demo_drained\<lparr>events := []\<rparr>"]
    demo_reachable_drained demo_step_drained
  by (simp add: demo_drained_def)

subsection \<open>The two counters that are never updated\<close>

lemma step_unused:
  assumes "unused_inv s" "step rng cfg s = Continue s'"
  shows "unused_inv s'"
  using assms(2)
proof (cases rule: step_cases)
  case arrival
  with assms(1) show ?thesis
    by (auto simp: on_input_def next_input_def unused_inv_def Let_def
             split: if_splits sum.splits)
next
  case completion
  with assms(1) show ?thesis
    by (auto simp: on_done_def unused_inv_def Let_def
             split: if_splits option.splits list.splits)
next
  case other
  with assms(1) show ?thesis by (simp add: unused_inv_def)
qed

lemma reachable_unused: "reachable params rng cfg s \<Longrightarrow> unused_inv s"
proof (induction rule: reachable.induct)
  case (start cfg s0)
  then obtain t0 where "s0 = init_state t0" using prepare_init by blast
  then show ?case by (simp add: unused_inv_def init_state_def init_stats_def)
next
  case (dispatch cfg s s')
  then show ?case using step_unused by blast
qed

lemma simulate_Inr:
  assumes "simulate fuel params rng = Some (Inr r)"
  obtains cfg s0 s where "prepare params rng = Inr (cfg, s0)"
    "loop fuel rng cfg s0 = Some (Inr s)" "finalize cfg s = Inr r"
  using assms
  by (auto simp: simulate_def split: sum.splits option.splits prod.splits)

lemma demo_simulate: "simulate 5 demo_params demo_rng = Some (Inr demo_result)"
  by (simp add: simulate_def finalize_def demo_params_def demo_rng_def demo_result_def
                run_defs numeral_nat)

text \<open>
  C10. Whenever \<^verbatim>\<open>simulate\<close> returns its dictionary, the entries
  \<^verbatim>\<open>completed_without_queueing\<close> and \<^verbatim>\<open>completed_with_queueing\<close> are 0: they
  are initialised and no transition of the loop updates them.
\<close>

theorem unused_counters_zero:
  assumes "simulate fuel params rng = Some (Inr r)"
  shows "r_completed_without_queueing r = 0 \<and> r_completed_with_queueing r = 0"
proof -
  from assms obtain cfg s0 s where p: "prepare params rng = Inr (cfg, s0)"
    and l: "loop fuel rng cfg s0 = Some (Inr s)" and f: "finalize cfg s = Inr r"
    by (rule simulate_Inr)
  from loop_final[OF reachable.start[OF p] l] obtain s1
    where r1: "reachable params rng cfg s1" and b: "step rng cfg s1 = Break s"
    by blast
  from b have "stats s = stats s1"
    by (rule step_Break) simp
  with reachable_unused[OF r1] have "unused_inv s"
    by (simp add: unused_inv_def)
  with finalize_Inr[OF f] show ?thesis
    by (simp add: unused_inv_def)
qed

theorem unused_counters_zero_witness:
  "simulate 5 demo_params demo_rng = Some (Inr demo_result)
   \<and> r_completed_without_queueing demo_result = 0
   \<and> r_completed_with_queueing demo_result = 0"
  using unused_counters_zero[OF demo_simulate] demo_simulate by simp

text \<open>
  C8. When the popped event lies beyond the horizon, the iteration is the last one and
  the event is not dispatched: the loop ends with the state it had, less the popped
  event in the heap. Occupancy, queue, \<^verbatim>\<open>last_queue_update\<close> and every statistic keep
  their values, whatever the kind of the event; so the completion of a job that is in
  service at the horizon is not counted.
\<close>

theorem horizon_event_discarded:
  assumes "heappop (events s) = Inr ((now, evtype, start), evs)"
    and "cfg_endtime cfg < now"
  shows "step rng cfg s = Break (s\<lparr>events := evs\<rparr>)
       \<and> loop (Suc n) rng cfg s = Some (Inr (s\<lparr>events := evs\<rparr>))"
proof -
  from assms(1) have "events s \<noteq> []"
    by (auto simp: heappop_def)
  with assms have "step rng cfg s = Break (s\<lparr>events := evs\<rparr>)"
    by (simp add: step_def)
  then show ?thesis by simp
qed

theorem horizon_event_discarded_witness:
  "heappop (events cutoff_state) = Inr ((2, ev_done, Some 1), [(6, ev_input, None)])
   \<and> cfg_endtime cutoff_cfg < 2
   \<and> step cutoff_rng cutoff_cfg cutoff_state
       = Break (cutoff_state\<lparr>events := [(6, ev_input, None)]\<rparr>)
   \<and> loop (Suc 0) cutoff_rng cutoff_cfg cutoff_state
       = Some (Inr (cutoff_state\<lparr>events := [(6, ev_input, None)]\<rparr>))
   \<and> servers_occupied cutoff_state = 1
   \<and> done_events (stats (cutoff_state\<lparr>events := [(6, ev_input, None)]\<rparr>)) = 1"
proof -
  have pop: "heappop (events cutoff_state) = Inr ((2, ev_done, Some 1), [(6, ev_input, None)])"
    by (simp add: cutoff_state_def heappop_def ev_input_def ev_done_def)
  have late: "cfg_endtime cutoff_cfg < 2"
    by (simp add: cutoff_cfg_def cfg_endtime_def)
  from horizon_event_discarded[OF pop late, of cutoff_rng 0] pop late show ?thesis
    by (simp add: cutoff_state_def)
qed

subsection \<open>Order of dispatch\<close>

lemma ev_lt_trans: "ev_lt a b \<Longrightarrow> ev_lt b c \<Longrightarrow> ev_lt a c"
proof -
  have st: "start_lt p q \<Longrightarrow> start_lt q r \<Longrightarrow> start_lt p r" for p q r
    by (cases p; cases q; cases r) auto
  obtain t1 k1 p1 t2 k2 p2 t3 k3 p3
    where abc: "a = (t1, k1, p1)" "b = (t2, k2, p2)" "c = (t3, k3, p3)"
    by (metis prod_cases3)
  assume "ev_lt a b" "ev_lt b c"
  then show "ev_lt a c"
    unfolding abc using st[of p1 p2 p3] by auto
qed

lemma ev_lt_irrefl: "\<not> ev_lt a a"
proof -
  have "\<not> start_lt p p" for p
    by (cases p) auto
  then show ?thesis by (cases a) auto
qed

lemma ev_min_le: "ev_min m es = m \<or> ev_lt (ev_min m es) m"
proof (induction es arbitrary: m)
  case Nil
  then show ?case by simp
next
  case (Cons x xs)
  show ?case
  proof (cases "ev_lt x m")
    case True
    with Cons.IH[of x] show ?thesis
      by (auto intro: ev_lt_trans)
  next
    case False
    with Cons.IH[of m] show ?thesis by simp
  qed
qed

lemma ev_min_least: "e \<in> set (m # es) \<Longrightarrow> \<not> ev_lt e (ev_min m es)"
proof (induction es arbitrary: m e)
  case Nil
  then show ?case by (simp add: ev_lt_irrefl)
next
  case (Cons x xs)
  show ?case
  proof (cases "ev_lt x m")
    case True
    have least: "\<not> ev_lt e' (ev_min x xs)" if "e' \<in> set (x # xs)" for e'
      using that by (rule Cons.IH)
    from Cons.prems consider "e = m" | "e \<in> set (x # xs)" by auto
    then show ?thesis
    proof cases
      case 1
      have "\<not> ev_lt m (ev_min x xs)"
      proof
        assume "ev_lt m (ev_min x xs)"
        with True have "ev_lt x (ev_min x xs)" by (rule ev_lt_trans)
        with least[of x] show False by simp
      qed
      with 1 True show ?thesis by simp
    next
      case 2
      with least True show ?thesis by simp
    qed
  next
    case False
    have least: "\<not> ev_lt e' (ev_min m xs)" if "e' \<in> set (m # xs)" for e'
      using that by (rule Cons.IH)
    from Cons.prems consider "e = x" | "e \<in> set (m # xs)" by auto
    then show ?thesis
    proof cases
      case 1
      have "\<not> ev_lt x (ev_min m xs)"
      proof
        assume lt: "ev_lt x (ev_min m xs)"
        from ev_min_le[of m xs] show False
        proof
          assume "ev_min m xs = m"
          with lt False show False by simp
        next
          assume "ev_lt (ev_min m xs) m"
          with lt have "ev_lt x m" by (rule ev_lt_trans)
          with False show False by simp
        qed
      qed
      with 1 False show ?thesis by simp
    next
      case 2
      with least False show ?thesis by simp
    qed
  qed
qed

lemma heappop_least:
  assumes "heappop evs = Inr (m, rest)" "e \<in> set evs"
  shows "\<not> ev_lt e m"
proof (cases evs)
  case Nil
  with assms(2) show ?thesis by simp
next
  case (Cons x xs)
  with assms(1) have "m = ev_min x xs"
    by (simp add: heappop_def Let_def)
  with assms(2) Cons show ?thesis
    using ev_min_least[of e x xs] by simp
qed

text \<open>
  C9. When an arrival and a completion with the same timestamp are both pending, the
  scheduler does not hand out the completion: the tuple \<^verbatim>\<open>(t, ev_input, _)\<close> is
  smaller than \<^verbatim>\<open>(t, ev_done, _)\<close> because kind code 0 is below kind code 1, so the
  completion stays in the heap until the arrival has been popped.
\<close>

theorem arrival_first_on_tie:
  assumes "heappop evs = Inr (m, rest)"
    and "(t, ev_input, p) \<in> set evs"
    and "(t, ev_done, q) \<in> set evs"
  shows "ev_lt (t, ev_input, p) (t, ev_done, q)
       \<and> m \<noteq> (t, ev_done, q)
       \<and> (t, ev_done, q) \<in> set rest"
proof -
  have lt: "ev_lt (t, ev_input, p) (t, ev_done, q)"
    by (simp add: ev_input_def ev_done_def)
  from heappop_least[OF assms(1,2)] lt have ne: "m \<noteq> (t, ev_done, q)"
    by auto
  from heappop_Inr[OF assms(1)] have "rest = remove1 m evs"
    by simp
  with ne assms(3) have "(t, ev_done, q) \<in> set rest"
    by simp
  with lt ne show ?thesis by simp
qed

theorem arrival_first_on_tie_witness:
  "heappop [(1, ev_done, Some 0), (1, ev_input, None)]
     = Inr ((1, ev_input, None), [(1, ev_done, Some 0)])
   \<and> (1, ev_input, None) \<in> set [(1, ev_done, Some 0), (1, ev_input, None)]
   \<and> (1, ev_done, Some 0) \<in> set [(1, ev_done, Some 0), (1, ev_input, None)]
   \<and> ev_lt (1, ev_input, None) (1, ev_done, Some 0)
   \<and> (1, ev_done, Some 0) \<in> set [(1, ev_done, Some (0::real))]"
proof -
  have pop: "heappop [(1, ev_done, Some 0), (1, ev_input, None)]
               = Inr ((1, ev_input, None), [(1, ev_done, Some 0)])"
    by (simp add: heappop_def ev_input_def ev_done_def)
  have a: "(1, ev_input, None) \<in> set [(1, ev_done, Some 0), (1, ev_input, None)]"
    by simp
  have d: "(1, ev_done, Some 0) \<in> set [(1, ev_done, Some 0), (1, ev_input, None)]"
    by simp
  from arrival_first_on_tie[OF pop a d] pop show ?thesis
    by simp
qed

subsection \<open>Server occupancy\<close>

lemma step_occupancy:
  assumes "occupancy_inv cfg s" "step rng cfg s = Continue s'"
  shows "occupancy_inv cfg s'"
  using assms(2)
proof (cases rule: step_cases)
  case arrival
  with assms(1) show ?thesis
    by (auto simp: on_input_def next_input_def occupancy_inv_def Let_def
             split: if_splits sum.splits)
next
  case completion
  with assms(1) show ?thesis
    by (auto simp: on_done_def occupancy_inv_def Let_def
             split: if_splits option.splits list.splits)
next
  case other
  with assms(1) show ?thesis by (simp add: occupancy_inv_def)
qed

lemma reachable_occupancy:
  assumes "reachable params rng cfg s" "0 \<le> cfg_c cfg"
  shows "occupancy_inv cfg s"
  using assms
proof (induction rule: reachable.induct)
  case (start cfg s0)
  then obtain t0 where "s0 = init_state t0" using prepare_init by blast
  with start show ?case by (simp add: occupancy_inv_def init_state_def)
next
  case (dispatch cfg s s')
  then show ?case using step_occupancy by blast
qed

lemma negative_prepare:
  "prepare negative_params demo_rng = Inr (negative_cfg, init_state (1 / 10))"
  by (simp add: negative_params_def demo_rng_def negative_cfg_def run_defs)

lemma negative_step:
  "step demo_rng negative_cfg (init_state (1 / 10)) = Continue unserved_state"
  by (simp add: demo_rng_def negative_cfg_def unserved_state_def run_defs)

text \<open>
  C2, as stated, fails: the server count is not checked, and with \<^verbatim>\<open>c = -1\<close> the
  state after the first arrival has no busy server, which is more than \<open>c\<close>, and a job
  waiting although the occupancy is not \<open>c\<close>.
\<close>

theorem occupancy_bound_counterexample:
  "reachable negative_params demo_rng negative_cfg unserved_state
   \<and> \<not> (0 \<le> servers_occupied unserved_state
        \<and> servers_occupied unserved_state \<le> cfg_c negative_cfg
        \<and> (queue unserved_state \<noteq> [] \<longrightarrow> servers_occupied unserved_state = cfg_c negative_cfg))"
proof -
  have "reachable negative_params demo_rng negative_cfg unserved_state"
    using reachable.start[OF negative_prepare] negative_step by (rule reachable.dispatch)
  then show ?thesis
    by (simp add: unserved_state_def negative_cfg_def)
qed

text \<open>
  C2, amended. For every configuration with a server count \<open>c \<ge> 0\<close>, every state the
  loop reaches has \<open>0 \<le> servers_occupied \<le> c\<close> and a non-empty queue only when
  \<open>servers_occupied = c\<close>; and a dispatched event, arrival or completion, leads from a
  state with this property to a state with this property.
\<close>

theorem occupancy_invariant:
  assumes "0 \<le> cfg_c cfg"
  shows "(reachable params rng cfg s \<longrightarrow> occupancy_inv cfg s)
       \<and> (occupancy_inv cfg u \<and> step rng cfg u = Continue u' \<longrightarrow> occupancy_inv cfg u')"
  using assms reachable_occupancy step_occupancy by blast

lemma demo_step_queued: "step demo_rng demo_cfg demo_queued = Continue demo_handover"
  by (simp add: demo_rng_def demo_cfg_def demo_queued_def demo_handover_def run_defs)

theorem occupancy_invariant_witness:
  "0 \<le> cfg_c demo_cfg
   \<and> reachable demo_params demo_rng demo_cfg demo_queued
   \<and> occupancy_inv demo_cfg demo_queued
   \<and> queue demo_queued \<noteq> []
   \<and> step demo_rng demo_cfg demo_queued = Continue demo_handover
   \<and> occupancy_inv demo_cfg demo_handover"
proof -
  have c: "0 \<le> cfg_c demo_cfg" by (simp add: demo_cfg_def)
  from occupancy_invariant[OF c, of demo_params demo_rng demo_queued demo_queued demo_handover]
    demo_reachable_queued demo_step_queued c
  show ?thesis by (simp add: demo_queued_def)
qed

subsection \<open>Zero completions\<close>

lemma idle_prepare: "prepare idle_params idle_rng = Inr (idle_cfg, init_state 1)"
  by (simp add: idle_params_def idle_rng_def idle_cfg_def run_defs)

text \<open>
  C1, as stated, fails: with horizon 0 the loop ends with zero completions, and the
  finalisation divides by \<^verbatim>\<open>stats['done_events']\<close>; the run raises
  ZeroDivisionError.
\<close>

theorem zero_completions_counterexample:
  "loop (Suc 0) idle_rng idle_cfg (init_state 1) = Some (Inr ((init_state 1)\<lparr>events := []\<rparr>))
   \<and> done_events (stats ((init_state 1)\<lparr>events := []\<rparr>)) = 0
   \<and> simulate (Suc 0) idle_params idle_rng = Some (Inl ZeroDivisionError)"
  by (simp add: simulate_def finalize_def idle_params_def idle_rng_def idle_cfg_def run_defs)

text \<open>
  C1, amended. For every run whose loop ends with zero completions, the finalisation
  divides by the completion count 0: its first division raises ZeroDivisionError, and
  \<^verbatim>\<open>simulate\<close> propagates the error instead of returning statistics.
\<close>

theorem zero_completions_raise:
  assumes "prepare params rng = Inr (cfg, s0)"
    and "loop fuel rng cfg s0 = Some (Inr s)"
    and "done_events (stats s) = 0"
  shows "finalize cfg s = Inl ZeroDivisionError
       \<and> simulate fuel params rng = Some (Inl ZeroDivisionError)"
  using assms by (simp add: simulate_def finalize_zero)

lemma short_prepare: "prepare short_params short_rng = Inr (short_cfg, init_state (1 / 10))"
  by (simp add: short_params_def short_rng_def short_cfg_def run_defs)

lemma short_loop:
  "loop (Suc (Suc 0)) short_rng short_cfg (init_state (1 / 10)) = Some (Inr short_final)"
  by (simp add: short_rng_def short_cfg_def short_final_def run_defs)

theorem zero_completions_raise_witness:
  "prepare short_params short_rng = Inr (short_cfg, init_state (1 / 10))
   \<and> loop (Suc (Suc 0)) short_rng short_cfg (init_state (1 / 10)) = Some (Inr short_final)
   \<and> done_events (stats short_final) = 0
   \<and> finalize short_cfg short_final = Inl ZeroDivisionError
   \<and> simulate (Suc (Suc 0)) short_params short_rng = Some (Inl ZeroDivisionError)"
proof -
  have z: "done_events (stats short_final) = 0" by (simp add: short_final_def)
  from zero_completions_raise[OF short_prepare short_loop z] short_prepare short_loop z
  show ?thesis by simp
qed

subsection \<open>Parameter checks\<close>

lemma noserver_prepare:
  "prepare noserver_params demo_rng = Inr (noserver_cfg, init_state (1 / 10))"
  by (simp add: noserver_params_def demo_rng_def noserver_cfg_def run_defs)

text \<open>
  C6, as stated, fails: with \<^verbatim>\<open>c = 0\<close> the parameters are accepted, the loop is
  entered and the first arrival is dispatched (and queued).
\<close>

theorem fail_fast_counterexample:
  "prepare noserver_params demo_rng = Inr (noserver_cfg, init_state (1 / 10))
   \<and> cfg_c noserver_cfg = 0
   \<and> step demo_rng noserver_cfg (init_state (1 / 10)) = Continue unserved_state"
  by (simp add: noserver_params_def demo_rng_def noserver_cfg_def unserved_state_def run_defs)

lemma isinstance_None: "\<not> isinstance PyNone ts"
  by (induction ts) (auto simp: isinstance_def)

lemma get_param_ok:
  "params name = Some v \<Longrightarrow> isinstance v typ \<Longrightarrow> get_param params name typ = Inr v"
  using isinstance_None by (auto simp: get_param_def)

text \<open>
  C6, amended. For every configuration whose five parameters are present with the
  expected types, the code before the loop fails in exactly three cases: the service
  rate is zero (ZeroDivisionError from \<^verbatim>\<open>1/u\<close>), the arrival rate is an int too
  large for a float (OverflowError from the exponential sampling), or the arrival rate
  is zero (ZeroDivisionError from the sampling). A negative arrival rate and a
  non-positive server count are not detected: the values reach the loop as given,
  without clamping, and the loop is entered. Its first iteration ends the loop if the
  first arrival lies beyond the horizon and dispatches that arrival otherwise; with a
  server count \<open>c \<le> 0\<close> the arrival is queued and no server is busy.
\<close>

theorem prepare_checks_types_only:
  assumes "params ''l'' = Some l" and "isinstance l [TInt, TFloat]"
    and "params ''u'' = Some u" and "isinstance u [TInt, TFloat]"
    and "params ''c'' = Some c" and "isinstance c [TInt]"
    and "params ''twait'' = Some twait" and "isinstance twait [TInt, TFloat]"
    and "params ''endtime'' = Some endtime" and "isinstance endtime [TInt, TFloat]"
  shows "let cfg = \<lparr>cfg_l_py = l, cfg_d = 1 / num_val u, cfg_c = int_val c,
                    cfg_twait = num_val twait, cfg_endtime_py = endtime\<rparr>;
             t0 = rng 0 / num_val l
         in prepare params rng =
              (if num_val u = 0 then Inl ZeroDivisionError
               else if float_overflow l then Inl OverflowError
               else if num_val l = 0 then Inl ZeroDivisionError
               else Inr (cfg, init_state t0))
          \<and> (num_val u \<noteq> 0 \<and> \<not> float_overflow l \<and> num_val l \<noteq> 0 \<longrightarrow>
               (num_val endtime < t0 \<longrightarrow>
                  step rng cfg (init_state t0) = Break ((init_state t0)\<lparr>events := []\<rparr>))
             \<and> (t0 \<le> num_val endtime \<longrightarrow>
                  (\<exists>s1. step rng cfg (init_state t0) = Continue s1
                        \<and> input_events (stats s1) = 1))
             \<and> (t0 \<le> num_val endtime \<and> int_val c \<le> 0 \<longrightarrow>
                  (\<exists>s1. step rng cfg (init_state t0) = Continue s1
                        \<and> queue s1 = [t0] \<and> servers_occupied s1 = 0)))"
proof -
  define cfg where "cfg = \<lparr>cfg_l_py = l, cfg_d = 1 / num_val u, cfg_c = int_val c,
                             cfg_twait = num_val twait, cfg_endtime_py = endtime\<rparr>"
  define t0 where "t0 = rng 0 / num_val l"
  have "get_param params ''l'' [TInt, TFloat] = Inr l"
    using assms(1,2) by (rule get_param_ok)
  moreover have "get_param params ''u'' [TInt, TFloat] = Inr u"
    using assms(3,4) by (rule get_param_ok)
  moreover have "get_param params ''c'' [TInt] = Inr c"
    using assms(5,6) by (rule get_param_ok)
  moreover have "get_param params ''twait'' [TInt, TFloat] = Inr twait"
    using assms(7,8) by (rule get_param_ok)
  moreover have "get_param params ''endtime'' [TInt, TFloat] = Inr endtime"
    using assms(9,10) by (rule get_param_ok)
  ultimately have before: "prepare params rng =
      (if num_val u = 0 then Inl ZeroDivisionError
       else if float_overflow l then Inl OverflowError
       else if num_val l = 0 then Inl ZeroDivisionError
       else Inr (cfg, init_state t0))"
    by (simp add: prepare_def expovariate_def to_float_number[OF assms(2)] cfg_def t0_def)
  have first: "(num_val endtime < t0 \<longrightarrow>
                  step rng cfg (init_state t0) = Break ((init_state t0)\<lparr>events := []\<rparr>))
             \<and> (t0 \<le> num_val endtime \<longrightarrow>
                  (\<exists>s1. step rng cfg (init_state t0) = Continue s1
                        \<and> input_events (stats s1) = 1))
             \<and> (t0 \<le> num_val endtime \<and> int_val c \<le> 0 \<longrightarrow>
                  (\<exists>s1. step rng cfg (init_state t0) = Continue s1
                        \<and> queue s1 = [t0] \<and> servers_occupied s1 = 0))"
    if ok: "\<not> float_overflow l" "num_val l \<noteq> 0"
  proof -
    from ok have draw: "expovariate (cfg_l_py cfg) x = Inr (x / num_val l)" for x
      by (simp add: expovariate_def to_float_number[OF assms(2)] cfg_def)
    have pop: "heappop (events (init_state t0)) = Inr ((t0, ev_input, None), [])"
      by (simp add: heappop_def init_state_def)
    have e: "cfg_endtime cfg = num_val endtime" and c: "cfg_c cfg = int_val c"
      by (simp_all add: cfg_endtime_def cfg_def)
    have late: "step rng cfg (init_state t0) = Break ((init_state t0)\<lparr>events := []\<rparr>)"
      if "num_val endtime < t0"
      using that pop e by (simp add: step_def init_state_def)
    have disp: "step rng cfg (init_state t0) = on_input rng cfg t0 [] (init_state t0)"
      if "t0 \<le> num_val endtime"
      using that pop e by (simp add: step_def init_state_def)
    have any: "\<exists>s1. on_input rng cfg t0 [] (init_state t0) = Continue s1
                  \<and> input_events (stats s1) = 1"
      by (simp add: on_input_def next_input_def draw init_state_def init_stats_def Let_def)
    have queued: "\<exists>s1. on_input rng cfg t0 [] (init_state t0) = Continue s1
                     \<and> queue s1 = [t0] \<and> servers_occupied s1 = 0"
      if "int_val c \<le> 0"
      using that c
      by (simp add: on_input_def next_input_def draw init_state_def init_stats_def Let_def)
    from late disp any queued show ?thesis by simp
  qed
  from before first show ?thesis
    unfolding Let_def cfg_def[symmetric] t0_def[symmetric] by blast
qed

theorem prepare_checks_types_only_witness:
  "mk_params (- 1) 1 (- 2) 1 10 ''l'' = Some (PyFloat (- 1))
   \<and> isinstance (PyFloat (- 1)) [TInt, TFloat]
   \<and> mk_params (- 1) 1 (- 2) 1 10 ''u'' = Some (PyFloat 1)
   \<and> isinstance (PyFloat 1) [TInt, TFloat]
   \<and> mk_params (- 1) 1 (- 2) 1 10 ''c'' = Some (PyInt (- 2))
   \<and> isinstance (PyInt (- 2)) [TInt]
   \<and> mk_params (- 1) 1 (- 2) 1 10 ''twait'' = Some (PyFloat 1)
   \<and> mk_params (- 1) 1 (- 2) 1 10 ''endtime'' = Some (PyFloat 10)
   \<and> isinstance (PyFloat 10) [TInt, TFloat]
   \<and> num_val (PyFloat 1) \<noteq> 0 \<and> \<not> float_overflow (PyFloat (- 1))
   \<and> num_val (PyFloat (- 1)) \<noteq> 0
   \<and> demo_rng 0 / num_val (PyFloat (- 1)) \<le> num_val (PyFloat 10)
   \<and> int_val (PyInt (- 2)) \<le> 0
   \<and> prepare (mk_params (- 1) 1 (- 2) 1 10) demo_rng =
       Inr (\<lparr>cfg_l_py = PyFloat (- 1), cfg_d = 1, cfg_c = - 2, cfg_twait = 1,
             cfg_endtime_py = PyFloat 10\<rparr>,
            init_state (- (1 / 10)))
   \<and> (\<exists>s1. step demo_rng
               \<lparr>cfg_l_py = PyFloat (- 1), cfg_d = 1, cfg_c = - 2, cfg_twait = 1,
                cfg_endtime_py = PyFloat 10\<rparr>
               (init_state (- (1 / 10))) = Continue s1
           \<and> queue s1 = [- (1 / 10)] \<and> servers_occupied s1 = 0)"
proof -
  have l: "mk_params (- 1) 1 (- 2) 1 10 ''l'' = Some (PyFloat (- 1))"
    and u: "mk_params (- 1) 1 (- 2) 1 10 ''u'' = Some (PyFloat 1)"
    and c: "mk_params (- 1) 1 (- 2) 1 10 ''c'' = Some (PyInt (- 2))"
    and t: "mk_params (- 1) 1 (- 2) 1 10 ''twait'' = Some (PyFloat 1)"
    and e: "mk_params (- 1) 1 (- 2) 1 10 ''endtime'' = Some (PyFloat 10)"
    by (simp_all add: mk_params_def)
  have il: "isinstance (PyFloat (- 1)) [TInt, TFloat]"
    and iu: "isinstance (PyFloat 1) [TInt, TFloat]"
    and ic: "isinstance (PyInt (- 2)) [TInt]"
    and ie: "isinstance (PyFloat 10) [TInt, TFloat]"
    by (simp_all add: isinstance_def)
  have d: "demo_rng 0 = 1 / 10"
    by (simp add: demo_rng_def draws_of_def)
  from prepare_checks_types_only[of "mk_params (- 1) 1 (- 2) 1 10",
      OF l il u iu c ic t iu e ie, of demo_rng]
    l u c t e il iu ic ie d
  show ?thesis by (simp add: float_overflow_def Let_def)
qed

text \<open>An arrival rate that is an int beyond the range of a float.\<close>

lemma prepare_overflow:
  "prepare [''l'' \<mapsto> PyInt (2 ^ 1024), ''u'' \<mapsto> PyFloat 1, ''c'' \<mapsto> PyInt 1,
            ''twait'' \<mapsto> PyFloat 1, ''endtime'' \<mapsto> PyFloat 10] rng
     = Inl OverflowError"
  by (simp add: prepare_def get_param_def isinstance_def expovariate_def to_float_def
                float_overflow_def)

subsection \<open>Threshold counters and jobs served at once\<close>

lemma step_starts:
  assumes "starts_inv s" "step rng cfg s = Continue s'"
  shows "starts_inv s'"
  using assms(2)
proof (cases rule: step_cases)
  case arrival
  with assms(1) show ?thesis
    by (auto simp: on_input_def next_input_def starts_inv_def Let_def
             split: if_splits sum.splits)
next
  case completion
  with assms(1) show ?thesis
    by (auto simp: on_done_def starts_inv_def Let_def
             split: if_splits option.splits list.splits)
next
  case other
  with assms(1) show ?thesis by (simp add: starts_inv_def)
qed

text \<open>
  What the loop maintains: the jobs served at once and the jobs classified against the
  threshold are the jobs that have started service, completed or still in service.
\<close>

lemma reachable_starts: "reachable params rng cfg s \<Longrightarrow> starts_inv s"
proof (induction rule: reachable.induct)
  case (start cfg s0)
  then obtain t0 where "s0 = init_state t0" using prepare_init by blast
  then show ?case by (simp add: starts_inv_def init_state_def init_stats_def)
next
  case (dispatch cfg s s')
  then show ?case using step_starts by blast
qed

subsection \<open>The run as a whole\<close>

text \<open>Every dispatched event lies within the horizon.\<close>

lemma dispatched_within_horizon:
  assumes "step rng cfg s = Continue s'"
  shows "\<exists>now k start evs.
           heappop (events s) = Inr ((now, k, start), evs) \<and> now \<le> cfg_endtime cfg"
  using assms by (cases rule: step_cases) blast+

text \<open>
  The state a run ends with is a reachable state less the one event, beyond the
  horizon, that was popped last.
\<close>

lemma loop_ends_at_cutoff:
  assumes "prepare params rng = Inr (cfg, s0)" "loop fuel rng cfg s0 = Some (Inr s')"
  shows "\<exists>s now k start evs.
           reachable params rng cfg s
         \<and> heappop (events s) = Inr ((now, k, start), evs)
         \<and> cfg_endtime cfg < now
         \<and> s' = s\<lparr>events := evs\<rparr>"
proof -
  from loop_final[OF reachable.start[OF assms(1)] assms(2)] obtain s
    where r: "reachable params rng cfg s" and b: "step rng cfg s = Break s'"
    by blast
  from b obtain now k start evs
    where "heappop (events s) = Inr ((now, k, start), evs)"
      "cfg_endtime cfg < now" "s' = s\<lparr>events := evs\<rparr>"
    by (rule step_Break)
  with r show ?thesis by blast
qed

text \<open>
  At the end of a run the jobs in service and the jobs waiting are arrivals that are not
  completions.
\<close>

lemma final_counts:
  assumes "prepare params rng = Inr (cfg, s0)" "loop fuel rng cfg s0 = Some (Inr s')"
  shows "input_events (stats s')
           = done_events (stats s') + servers_occupied s' + int (length (queue s'))"
proof -
  from loop_ends_at_cutoff[OF assms] obtain s evs
    where r: "reachable params rng cfg s" and s': "s' = s\<lparr>events := evs\<rparr>"
    by blast
  from reachable_counts[OF r] s' show ?thesis
    by (simp add: counts_inv_def)
qed

lemma prepare_Inr:
  assumes "prepare params rng = Inr (cfg, s0)"
  shows "cfg_l cfg \<noteq> 0 \<and> s0 = init_state (rng 0 / cfg_l cfg)"
  using assms
  by (auto simp: prepare_def expovariate_def cfg_l_def split: sum.splits if_splits
           dest: to_float_Inr)

text \<open>A horizon before the first arrival: no arrival, no completion, and the run raises.\<close>

lemma horizon_before_first_arrival:
  assumes "prepare params rng = Inr (cfg, s0)" "cfg_endtime cfg < rng 0 / cfg_l cfg"
  shows "simulate (Suc n) params rng = Some (Inl ZeroDivisionError)"
proof -
  from prepare_Inr[OF assms(1)] have s0: "s0 = init_state (rng 0 / cfg_l cfg)"
    by simp
  have "step rng cfg s0 = Break (s0\<lparr>events := []\<rparr>)"
    using assms(2) unfolding s0
    by (simp add: step_def heappop_def init_state_def)
  then have "loop (Suc n) rng cfg s0 = Some (Inr (s0\<lparr>events := []\<rparr>))"
    by simp
  moreover have "done_events (stats (s0\<lparr>events := []\<rparr>)) = 0"
    unfolding s0 by (simp add: init_state_def init_stats_def)
  ultimately show ?thesis
    using assms(1) by (simp add: simulate_def finalize_zero)
qed

subsection \<open>The queue depth statistics\<close>

lemma heappop_time_least:
  assumes "heappop evs = Inr ((now, k, start), rest)" "e \<in> set evs"
  shows "now \<le> fst e"
proof (rule ccontr)
  assume "\<not> now \<le> fst e"
  then have "ev_lt e (now, k, start)" by (cases e) auto
  with heappop_least[OF assms] show False by simp
qed

lemma on_input_queued:
  assumes "on_input rng cfg now evs s = Continue s'" "\<not> servers_occupied s < cfg_c cfg"
  shows "last_queue_update s' = now"
    and "queue s' = queue s @ [now]"
    and "avg_queue_depth (stats s')
           = avg_queue_depth (stats s) + (now - last_queue_update s) * real (length (queue s))"
    and "max_queue_depth (stats s') = max (max_queue_depth (stats s)) (int (length (queue s)))"
    and "events s' = evs @ [(now + rng (drawn s) / cfg_l cfg, ev_input, None)]"
  using assms
  by (auto simp: on_input_def next_input_def expovariate_def heappush_def Let_def cfg_l_def
           split: if_splits sum.splits dest: to_float_Inr)

lemma on_input_immediate:
  assumes "on_input rng cfg now evs s = Continue s'" "servers_occupied s < cfg_c cfg"
  shows "last_queue_update s' = last_queue_update s"
    and "queue s' = queue s"
    and "avg_queue_depth (stats s') = avg_queue_depth (stats s)"
    and "max_queue_depth (stats s') = max_queue_depth (stats s)"
    and "events s' = evs @ [(now + cfg_d cfg, ev_done, Some now),
                            (now + rng (drawn s) / cfg_l cfg, ev_input, None)]"
  using assms
  by (auto simp: on_input_def next_input_def expovariate_def heappush_def Let_def cfg_l_def
           split: if_splits sum.splits dest: to_float_Inr)

lemma on_done_idle:
  assumes "on_done cfg now start evs s = Continue s'" "queue s = []"
  shows "last_queue_update s' = last_queue_update s"
    and "queue s' = []"
    and "avg_queue_depth (stats s') = avg_queue_depth (stats s)"
    and "max_queue_depth (stats s') = max_queue_depth (stats s)"
    and "events s' = evs"
  using assms
  by (auto simp: on_done_def Let_def split: if_splits option.splits)

lemma on_done_handover:
  assumes "on_done cfg now start evs s = Continue s'" "queue s = arrived # rest"
  shows "last_queue_update s' = now"
    and "queue s' = rest"
    and "avg_queue_depth (stats s')
           = avg_queue_depth (stats s) + (now - last_queue_update s) * real (length (queue s))"
    and "max_queue_depth (stats s') = max_queue_depth (stats s)"
    and "events s' = evs @ [(now + cfg_d cfg, ev_done, Some arrived)]"
  using assms
  by (auto simp: on_done_def heappush_def Let_def split: if_splits option.splits)

lemma area_step:
  fixes area last now :: real and len mx mx' :: int
  assumes "area \<le> (of_int mx + 1) * last" "0 \<le> len" "len \<le> mx + 1" "mx \<le> mx'"
    "0 \<le> last" "last \<le> now" "0 \<le> area"
  shows "0 \<le> area + (now - last) * of_int len"
    and "area + (now - last) * of_int len \<le> (of_int mx' + 1) * now"
proof -
  have len0: "(0::real) \<le> of_int len" using assms(2) by simp
  have gap: "0 \<le> now - last" using assms(6) by simp
  from gap len0 have "0 \<le> (now - last) * of_int len" by (rule mult_nonneg_nonneg)
  with assms(7) show "0 \<le> area + (now - last) * of_int len" by simp
  have "(of_int len :: real) \<le> of_int mx + 1" using assms(3) by linarith
  with gap have "(now - last) * of_int len \<le> (now - last) * (of_int mx + 1)"
    by (rule mult_left_mono[rotated])
  with assms(1) have "area + (now - last) * of_int len \<le> (of_int mx + 1) * now"
    by (simp add: algebra_simps)
  also have "\<dots> \<le> (of_int mx' + 1) * now"
  proof (rule mult_right_mono)
    show "(of_int mx :: real) + 1 \<le> of_int mx' + 1" using assms(4) by simp
    show "0 \<le> now" using assms(5,6) by simp
  qed
  finally show "area + (now - last) * of_int len \<le> (of_int mx' + 1) * now" .
qed

lemma step_depth:
  assumes inv: "depth_inv cfg s" and st: "step rng cfg s = Continue s'"
    and d: "0 \<le> cfg_d cfg" and l: "0 < cfg_l cfg" and draws: "\<And>i. 0 \<le> rng i"
  shows "depth_inv cfg s'"
proof -
  from inv have last0: "0 \<le> last_queue_update s"
    and pend: "\<And>e. e \<in> set (events s) \<Longrightarrow> last_queue_update s \<le> fst e"
    and area0: "0 \<le> avg_queue_depth (stats s)"
    and area: "avg_queue_depth (stats s)
                 \<le> (of_int (max_queue_depth (stats s)) + 1) * last_queue_update s"
    and len: "int (length (queue s)) \<le> max_queue_depth (stats s) + 1"
    and mx0: "0 \<le> max_queue_depth (stats s)"
    and lastend: "last_queue_update s = 0 \<or> last_queue_update s \<le> cfg_endtime cfg"
    by (simp_all add: depth_inv_def)
  have dt: "0 \<le> rng (drawn s) / cfg_l cfg"
    using draws[of "drawn s"] l by simp
  have facts: "last_queue_update s \<le> now \<and> (\<forall>e \<in> set evs. now \<le> fst e)
               \<and> (\<forall>e \<in> set evs. last_queue_update s \<le> fst e)"
    if pop: "heappop (events s) = Inr ((now, k, start), evs)" for now k start evs
  proof -
    from heappop_Inr[OF pop] have m: "(now, k, start) \<in> set (events s)"
      and r: "evs = remove1 (now, k, start) (events s)" by auto
    from pend[OF m] have "last_queue_update s \<le> now" by simp
    moreover have "now \<le> fst e" if "e \<in> set evs" for e
    proof -
      from that r have "e \<in> set (events s)"
        using set_remove1_subset[of "(now, k, start)" "events s"] by blast
      with pop show ?thesis by (rule heappop_time_least)
    qed
    ultimately show ?thesis by (meson order_trans)
  qed
  from st show ?thesis
  proof (cases rule: step_cases)
    case (arrival now start evs)
    from facts[OF arrival(1)] have ln: "last_queue_update s \<le> now"
      and rest: "\<forall>e \<in> set evs. now \<le> fst e"
      and rest': "\<forall>e \<in> set evs. last_queue_update s \<le> fst e" by auto
    show ?thesis
    proof (cases "servers_occupied s < cfg_c cfg")
      case True
      note eff = on_input_immediate[OF arrival(3) True]
      from ln rest' d dt have "\<forall>e \<in> set (events s'). last_queue_update s' \<le> fst e"
        unfolding eff by simp
      with inv show ?thesis
        unfolding depth_inv_def eff(1-4) by simp
    next
      case False
      note eff = on_input_queued[OF arrival(3) False]
      have mxle: "max_queue_depth (stats s) \<le> max_queue_depth (stats s')"
        unfolding eff by simp
      from area_step[OF area _ len mxle last0 ln area0]
      have a: "0 \<le> avg_queue_depth (stats s')"
        and b: "avg_queue_depth (stats s')
                  \<le> (of_int (max_queue_depth (stats s')) + 1) * last_queue_update s'"
        unfolding eff(1,3) by simp_all
      from rest dt have c: "\<forall>e \<in> set (events s'). last_queue_update s' \<le> fst e"
        unfolding eff by simp
      have e: "int (length (queue s')) \<le> max_queue_depth (stats s') + 1"
        unfolding eff by simp
      from mx0 mxle have f: "0 \<le> max_queue_depth (stats s')" by simp
      from last0 ln arrival(2) have g: "0 \<le> last_queue_update s'"
        "last_queue_update s' = 0 \<or> last_queue_update s' \<le> cfg_endtime cfg"
        unfolding eff(1) by simp_all
      from a b c e f g show ?thesis by (simp add: depth_inv_def)
    qed
  next
    case (completion now start evs)
    from facts[OF completion(1)] have ln: "last_queue_update s \<le> now"
      and rest: "\<forall>e \<in> set evs. now \<le> fst e"
      and rest': "\<forall>e \<in> set evs. last_queue_update s \<le> fst e" by auto
    show ?thesis
    proof (cases "queue s")
      case Nil
      note eff = on_done_idle[OF completion(3) Nil]
      from rest' have "\<forall>e \<in> set (events s'). last_queue_update s' \<le> fst e"
        unfolding eff by simp
      with inv Nil show ?thesis
        unfolding depth_inv_def eff(1-4) by simp
    next
      case (Cons arrived waiting)
      note eff = on_done_handover[OF completion(3) Cons]
      have mxle: "max_queue_depth (stats s) \<le> max_queue_depth (stats s')"
        unfolding eff by simp
      from area_step[OF area _ len mxle last0 ln area0]
      have a: "0 \<le> avg_queue_depth (stats s')"
        and b: "avg_queue_depth (stats s')
                  \<le> (of_int (max_queue_depth (stats s')) + 1) * last_queue_update s'"
        unfolding eff(1,3) by simp_all
      from rest d have c: "\<forall>e \<in> set (events s'). last_queue_update s' \<le> fst e"
        unfolding eff by simp
      from len Cons have e: "int (length (queue s')) \<le> max_queue_depth (stats s') + 1"
        unfolding eff by simp
      from mx0 have f: "0 \<le> max_queue_depth (stats s')" unfolding eff by simp
      from last0 ln completion(2) have g: "0 \<le> last_queue_update s'"
        "last_queue_update s' = 0 \<or> last_queue_update s' \<le> cfg_endtime cfg"
        unfolding eff(1) by simp_all
      from a b c e f g show ?thesis by (simp add: depth_inv_def)
    qed
  next
    case (other now k start evs)
    from facts[OF other(1)] have ln: "last_queue_update s \<le> now"
      and rest: "\<forall>e \<in> set evs. now \<le> fst e"
      and rest': "\<forall>e \<in> set evs. last_queue_update s \<le> fst e" by auto
    from inv rest' other(5) show ?thesis by (simp add: depth_inv_def)
  qed
qed

lemma reachable_depth:
  assumes "reachable params rng cfg s"
    and "0 \<le> cfg_d cfg" and "0 < cfg_l cfg" and "\<And>i. 0 \<le> rng i"
  shows "depth_inv cfg s"
  using assms
proof (induction rule: reachable.induct)
  case (start cfg s0)
  from prepare_Inr[OF start(1)] have s0: "s0 = init_state (rng 0 / cfg_l cfg)" by simp
  from start.prems(2) start.prems(3)[of 0] have "0 \<le> rng 0 / cfg_l cfg" by simp
  then show ?case
    unfolding s0 by (simp add: depth_inv_def init_state_def init_stats_def)
next
  case (dispatch cfg s s')
  then show ?case using step_depth by blast
qed

text \<open>
  The bound that does hold when rates and draws are positive: the average returned is
  between 0 and the returned maximum plus one.
\<close>

lemma average_depth_bound:
  assumes p: "prepare params rng = Inr (cfg, s0)"
    and run: "loop fuel rng cfg s0 = Some (Inr s)"
    and fin: "finalize cfg s = Inr r"
    and d: "0 \<le> cfg_d cfg" and l: "0 < cfg_l cfg" and draws: "\<And>i. 0 \<le> rng i"
  shows "0 \<le> r_avg_queue_depth r \<and> r_avg_queue_depth r \<le> of_int (r_max_queue_depth r) + 1"
proof -
  from loop_final[OF reachable.start[OF p] run] obtain s1
    where r1: "reachable params rng cfg s1" and b: "step rng cfg s1 = Break s"
    by blast
  from b have same: "stats s = stats s1" "last_queue_update s = last_queue_update s1"
    by (rule step_Break, simp)+
  from reachable_depth[OF r1 d l draws] same
  have last0: "0 \<le> last_queue_update s"
    and lastend: "last_queue_update s = 0 \<or> last_queue_update s \<le> cfg_endtime cfg"
    and area0: "0 \<le> avg_queue_depth (stats s)"
    and area: "avg_queue_depth (stats s)
                 \<le> (of_int (max_queue_depth (stats s)) + 1) * last_queue_update s"
    and mx0: "0 \<le> max_queue_depth (stats s)"
    by (simp_all add: depth_inv_def)
  from finalize_Inr[OF fin] have e0: "cfg_endtime cfg \<noteq> 0"
    and avg: "r_avg_queue_depth r = avg_queue_depth (stats s) / cfg_endtime cfg"
    and mx: "r_max_queue_depth r = max_queue_depth (stats s)"
    by simp_all
  have mx1: "(0::real) \<le> of_int (max_queue_depth (stats s)) + 1"
    using mx0 by simp
  show ?thesis
  proof (cases "0 < cfg_endtime cfg")
    case True
    from lastend True have "last_queue_update s \<le> cfg_endtime cfg" by auto
    with mx1 have "(of_int (max_queue_depth (stats s)) + 1) * last_queue_update s
                     \<le> (of_int (max_queue_depth (stats s)) + 1) * cfg_endtime cfg"
      by (rule mult_left_mono[rotated])
    with area have "avg_queue_depth (stats s)
                      \<le> (of_int (max_queue_depth (stats s)) + 1) * cfg_endtime cfg"
      by simp
    with True have "avg_queue_depth (stats s) / cfg_endtime cfg
                      \<le> of_int (max_queue_depth (stats s)) + 1"
      by (simp add: pos_divide_le_eq)
    moreover from area0 True have "0 \<le> avg_queue_depth (stats s) / cfg_endtime cfg"
      by simp
    ultimately show ?thesis by (simp add: avg mx)
  next
    case False
    with e0 have "cfg_endtime cfg < 0" by simp
    with lastend last0 have "last_queue_update s = 0" by auto
    with area area0 have "avg_queue_depth (stats s) = 0" by simp
    with mx1 show ?thesis by (simp add: avg mx)
  qed
qed

text \<open>
  C5 at a concrete run: one server, the second job waits from 0.2 to 1.1. The maximum
  is taken over the queue lengths seen before each append, so it stays 0, while the
  average queue depth returned is 0.09.
\<close>

theorem average_depth_exceeds_max_depth:
  "simulate 5 demo_params demo_rng = Some (Inr demo_result)
   \<and> r_max_queue_depth demo_result = 0
   \<and> r_avg_queue_depth demo_result = 9 / 100
   \<and> of_int (r_max_queue_depth demo_result) < r_avg_queue_depth demo_result"
  using demo_simulate by (simp add: demo_result_def)

subsection \<open>Threshold counters and jobs served at once, at the end of a run\<close>

lemma demo_loop:
  "loop 5 demo_rng demo_cfg (init_state (1 / 10)) = Some (Inr (demo_drained\<lparr>events := []\<rparr>))"
  by (simp add: demo_rng_def demo_cfg_def demo_drained_def run_defs numeral_nat)

lemma cutoff_prepare: "prepare cutoff_params cutoff_rng = Inr (cutoff_cfg, init_state (1 / 2))"
  by (simp add: cutoff_params_def cutoff_rng_def cutoff_cfg_def run_defs)

lemma cutoff_loop:
  "loop 4 cutoff_rng cutoff_cfg (init_state (1 / 2))
     = Some (Inr (cutoff_state\<lparr>events := [(6, ev_input, None)]\<rparr>))"
  by (simp add: cutoff_rng_def cutoff_cfg_def cutoff_state_def run_defs numeral_nat)

text \<open>
  C3, as stated, fails: one job, served at once and completed before the horizon. At
  the end of the loop \<^verbatim>\<open>done_events\<close> is 1 while \<^verbatim>\<open>wait_lt_twait\<close> and
  \<^verbatim>\<open>wait_gt_twait\<close> are both 0, and so are the two ratios returned.
\<close>

theorem threshold_partition_counterexample:
  "prepare single_params single_rng = Inr (single_cfg, init_state (1 / 2))
   \<and> loop 3 single_rng single_cfg (init_state (1 / 2)) = Some (Inr single_final)
   \<and> done_events (stats single_final) = 1
   \<and> wait_lt_twait (stats single_final) + wait_gt_twait (stats single_final) = 0
   \<and> simulate 3 single_params single_rng = Some (Inr single_result)
   \<and> r_wait_lt_twait single_result + r_wait_gt_twait single_result = 0"
  by (simp add: simulate_def finalize_def single_params_def single_rng_def single_cfg_def
                single_final_def single_result_def run_defs numeral_nat)

text \<open>
  C3, amended. At the end of every run, \<^verbatim>\<open>wait_lt_twait\<close> plus
  \<^verbatim>\<open>wait_gt_twait\<close> is exactly the number of jobs that waited in the queue and
  have started service: the arrivals, less those served at once, less those still
  waiting. Each such job is in one of the two counts, whether or not it has completed
  by the horizon.
\<close>

theorem threshold_counters_partition:
  assumes "prepare params rng = Inr (cfg, s0)"
    and "loop fuel rng cfg s0 = Some (Inr s)"
  shows "wait_lt_twait (stats s) + wait_gt_twait (stats s)
           = input_events (stats s) - served_immediately (stats s) - int (length (queue s))"
proof -
  from loop_ends_at_cutoff[OF assms] obtain s1 evs
    where r: "reachable params rng cfg s1" and s: "s = s1\<lparr>events := evs\<rparr>"
    by blast
  from reachable_counts[OF r] reachable_starts[OF r] s show ?thesis
    by (simp add: counts_inv_def starts_inv_def)
qed

theorem threshold_counters_partition_witness:
  "prepare demo_params demo_rng = Inr (demo_cfg, init_state (1 / 10))
   \<and> loop 5 demo_rng demo_cfg (init_state (1 / 10))
       = Some (Inr (demo_drained\<lparr>events := []\<rparr>))
   \<and> wait_lt_twait (stats (demo_drained\<lparr>events := []\<rparr>)) = 1
   \<and> wait_gt_twait (stats (demo_drained\<lparr>events := []\<rparr>)) = 0
   \<and> input_events (stats (demo_drained\<lparr>events := []\<rparr>)) = 2
   \<and> served_immediately (stats (demo_drained\<lparr>events := []\<rparr>)) = 1
   \<and> queue (demo_drained\<lparr>events := []\<rparr>) = []"
  using threshold_counters_partition[OF demo_prepare demo_loop] demo_prepare demo_loop
  by (simp add: demo_drained_def)

text \<open>
  C4, as stated, fails: two servers, two jobs served at once, one of them still in
  service at the horizon. At the end of the loop \<^verbatim>\<open>served_immediately\<close> is 2, no
  job has waited, and \<^verbatim>\<open>done_events\<close> is 1; the ratio returned for
  \<^verbatim>\<open>served_immediately\<close> is 2.
\<close>

theorem served_plus_waited_counterexample:
  "prepare cutoff_params cutoff_rng = Inr (cutoff_cfg, init_state (1 / 2))
   \<and> loop 4 cutoff_rng cutoff_cfg (init_state (1 / 2))
       = Some (Inr (cutoff_state\<lparr>events := [(6, ev_input, None)]\<rparr>))
   \<and> served_immediately (stats cutoff_state) = 2
   \<and> wait_lt_twait (stats cutoff_state) + wait_gt_twait (stats cutoff_state) = 0
   \<and> completed_with_queueing (stats cutoff_state) = 0
   \<and> done_events (stats cutoff_state) = 1
   \<and> simulate 4 cutoff_params cutoff_rng = Some (Inr cutoff_result)
   \<and> r_served_immediately cutoff_result = 2"
  by (simp add: simulate_def finalize_def cutoff_params_def cutoff_rng_def cutoff_cfg_def
                cutoff_state_def cutoff_result_def run_defs numeral_nat)

text \<open>
  C4, amended. At the end of every run, the jobs served at once plus the jobs that
  waited (\<^verbatim>\<open>wait_lt_twait + wait_gt_twait\<close>) are the completions plus the jobs still
  in service at the horizon: the sum is \<^verbatim>\<open>done_events + servers_occupied\<close>.
\<close>

theorem served_plus_waited:
  assumes "prepare params rng = Inr (cfg, s0)"
    and "loop fuel rng cfg s0 = Some (Inr s)"
  shows "served_immediately (stats s) + (wait_lt_twait (stats s) + wait_gt_twait (stats s))
           = done_events (stats s) + servers_occupied s"
proof -
  from loop_ends_at_cutoff[OF assms] obtain s1 evs
    where r: "reachable params rng cfg s1" and s: "s = s1\<lparr>events := evs\<rparr>"
    by blast
  from reachable_starts[OF r] s show ?thesis
    by (simp add: starts_inv_def)
qed

theorem served_plus_waited_witness:
  "prepare cutoff_params cutoff_rng = Inr (cutoff_cfg, init_state (1 / 2))
   \<and> loop 4 cutoff_rng cutoff_cfg (init_state (1 / 2))
       = Some (Inr (cutoff_state\<lparr>events := [(6, ev_input, None)]\<rparr>))
   \<and> served_immediately (stats (cutoff_state\<lparr>events := [(6, ev_input, None)]\<rparr>)) = 2
   \<and> wait_lt_twait (stats (cutoff_state\<lparr>events := [(6, ev_input, None)]\<rparr>))
       + wait_gt_twait (stats (cutoff_state\<lparr>events := [(6, ev_input, None)]\<rparr>)) = 0
   \<and> done_events (stats (cutoff_state\<lparr>events := [(6, ev_input, None)]\<rparr>)) = 1
   \<and> servers_occupied (cutoff_state\<lparr>events := [(6, ev_input, None)]\<rparr>) = 1"
  using served_plus_waited[OF cutoff_prepare cutoff_loop] cutoff_prepare cutoff_loop
  by (simp add: cutoff_state_def)

end
